theory Spec2Isabelle
  imports Main
begin

section \<open>Data model (types.ts and the state hooks of App.tsx)\<close>

text \<open>
  The game is a React component whose state lives in \<open>useState\<close> hooks. The embedding keeps
  one record for those hooks and passes it through every handler. Numbers are the integers
  the game computes with; identifiers are strings.
\<close>

datatype GameMode = Classic | Time

record Block =
  id_b :: string
  value_b :: int
  isSelected :: bool

type_synonym Cell = "Block option"

type_synonym Grid = "Cell list list"

text \<open>
  The module \<open>./constants\<close> is imported by App.tsx but is not part of the sources at hand, so
  its constants are parameters of the model. \<open>BLOCK_VALUES\<close> only feeds the random choice of
  a new block's value, which is an input of \<open>createBlock\<close> below.
\<close>

record Config =
  GRID_COLS :: nat
  GRID_ROWS :: nat
  INITIAL_ROWS :: nat
  TIME_LIMIT :: int
  MIN_TARGET :: int
  MAX_TARGET :: int

text \<open>
  \<open>pendingMatches\<close> is not a hook: it is the queue of the callbacks that \<open>handleBlockClick\<close>
  hands to \<open>setTimeout\<close>. Each entry holds what the callback's closure captured: the matched
  selection \<open>next\<close> and the \<open>mode\<close> of the render in which the click happened.
\<close>

record Game =
  mode :: "GameMode option"
  grid :: Grid
  targetSum :: int
  score :: int
  isGameOver :: bool
  timeLeft :: int
  selectedIds :: "string list"
  isPaused :: bool
  pendingMatches :: "(string list \<times> GameMode option) list"

datatype error = TypeError | UndefinedCell

datatype Outcome = CONTINUE | EXACT_MATCH | EXCEEDED

section \<open>Block factory\<close>

text \<open>
  \<open>createBlock\<close>: the pair \<open>rand\<close> holds the two random draws of one call, the string of
  \<open>generateId\<close> and the element picked from \<open>BLOCK_VALUES\<close>; \<open>v\<close> is the optional argument.
\<close>

definition createBlock :: "string \<times> int \<Rightarrow> int option \<Rightarrow> Block" where
  "createBlock rand v =
     \<lparr>id_b = fst rand,
      value_b = (case v of Some x \<Rightarrow> x | None \<Rightarrow> snd rand),
      isSelected = False\<rparr>"

section \<open>Selection tracker (the updater of handleBlockClick)\<close>

text \<open>
  \<open>grid.flat().find((item) => item?.id === id)\<close>: the first cell of the flattened grid that
  holds a block with the given id; \<open>None\<close> stands for \<open>undefined\<close> (nothing found). An empty
  cell never matches, since \<open>null?.id\<close> is \<open>undefined\<close>.
\<close>

definition findBlock :: "Grid \<Rightarrow> string \<Rightarrow> Cell option" where
  "findBlock g i =
     List.find (\<lambda>item. case item of None \<Rightarrow> False | Some b \<Rightarrow> id_b b = i) (concat g)"

text \<open>\<open>b?.value || 0\<close>: a missing block and a value of 0 both give 0.\<close>

definition valueOrZero :: "Cell option \<Rightarrow> int" where
  "valueOrZero b =
     (case b of
        Some (Some blk) \<Rightarrow> (if value_b blk = 0 then 0 else value_b blk)
      | _ \<Rightarrow> 0)"

definition currentSum :: "Grid \<Rightarrow> string list \<Rightarrow> int" where
  "currentSum g next = foldl (\<lambda>sum i. sum + valueOrZero (findBlock g i)) 0 next"

definition nextSelection :: "string list \<Rightarrow> string \<Rightarrow> string list" where
  "nextSelection prev i =
     (let isAlreadySelected = i \<in> set prev
      in if isAlreadySelected then filter (\<lambda>j. j \<noteq> i) prev else prev @ [i])"

text \<open>
  The function passed to \<open>setSelectedIds\<close>. It returns the new selection; the outcome names
  the branch taken: \<open>EXACT_MATCH\<close> is the branch that schedules the removal, \<open>EXCEEDED\<close> the
  branch that only clears the selection, \<open>CONTINUE\<close> the fall-through \<open>return next\<close>.
\<close>

definition toggle :: "Grid \<Rightarrow> int \<Rightarrow> string list \<Rightarrow> string \<Rightarrow> string list \<times> Outcome" where
  "toggle g target prev i =
     (let next = nextSelection prev i;
          total = currentSum g next
      in if total = target then ([], EXACT_MATCH)
         else if total > target then ([], EXCEEDED)
         else (next, CONTINUE))"

definition handleBlockClick :: "Game \<Rightarrow> Block \<Rightarrow> Game" where
  "handleBlockClick s block =
     (if isGameOver s \<or> isPaused s then s
      else
        (case toggle (grid s) (targetSum s) (selectedIds s) (id_b block) of
           (sel, EXACT_MATCH) \<Rightarrow>
             s\<lparr>selectedIds := sel,
               pendingMatches := pendingMatches s
                 @ [(nextSelection (selectedIds s) (id_b block), mode s)]\<rparr>
         | (sel, _) \<Rightarrow> s\<lparr>selectedIds := sel\<rparr>))"

section \<open>Grid: removal and gravity (removeBlocks)\<close>

text \<open>\<open>cell && ids.includes(cell.id) ? null : cell\<close>\<close>

definition clearCell :: "string list \<Rightarrow> Cell \<Rightarrow> Cell" where
  "clearCell ids cell =
     (case cell of
        Some b \<Rightarrow> (if id_b b \<in> set ids then None else cell)
      | None \<Rightarrow> cell)"

text \<open>
  The inner loop \<open>for (let r = GRID_ROWS - 1; r >= 0; r--)\<close> of one column \<open>c\<close>. The first
  counter is \<open>r + 1\<close>, so that the loop ends at 0; \<open>emptyRow\<close> is the integer of the source
  (it reaches -1 when every row of the column holds a block).

  Outside the shape that \<open>initGame\<close> builds, the source reads \<open>newGrid[r]\<close> beyond the last
  row, which is \<open>undefined\<close>, and indexing it throws a TypeError; beyond the end of a row it
  reads \<open>undefined\<close>, which is \<open>!== null\<close>, and goes on moving that \<open>undefined\<close> around, which
  no value of the grid's type \<open>(Block | null)[][]\<close> describes: the model stops there
  with \<open>UndefinedCell\<close>.
\<close>

fun fallRows :: "nat \<Rightarrow> nat \<Rightarrow> int \<Rightarrow> Grid \<Rightarrow> error + Grid" where
  "fallRows c 0 emptyRow newGrid = Inr newGrid"
| "fallRows c (Suc r) emptyRow newGrid =
     (if length newGrid \<le> r then Inl TypeError
      else if length (newGrid ! r) \<le> c then Inl UndefinedCell
      else
        (case newGrid ! r ! c of
           None \<Rightarrow> fallRows c r emptyRow newGrid
         | Some temp \<Rightarrow>
             (let g1 = newGrid[r := (newGrid ! r)[c := None]]
              in if emptyRow < 0 \<or> int (length g1) \<le> emptyRow then Inl TypeError
                 else if length (g1 ! nat emptyRow) \<le> c then Inl UndefinedCell
                 else fallRows c r (emptyRow - 1)
                        (g1[nat emptyRow := (g1 ! nat emptyRow)[c := Some temp]]))))"

text \<open>The outer loop \<open>for (let c = 0; c < GRID_COLS; c++)\<close>.\<close>

function gravity :: "Config \<Rightarrow> nat \<Rightarrow> Grid \<Rightarrow> error + Grid" where
  "gravity cfg c newGrid =
     (if c < GRID_COLS cfg then
        (case fallRows c (GRID_ROWS cfg) (int (GRID_ROWS cfg) - 1) newGrid of
           Inl e \<Rightarrow> Inl e
         | Inr g \<Rightarrow> gravity cfg (c + 1) g)
      else Inr newGrid)"
  by pat_completeness auto
termination
  by (relation "measure (\<lambda>(cfg, c, g). GRID_COLS cfg - c)") auto

definition compactGravity :: "Config \<Rightarrow> Grid \<Rightarrow> error + Grid" where
  "compactGravity cfg newGrid = gravity cfg 0 newGrid"

text \<open>
  \<open>removeBlocks\<close>: the updater of \<open>setGrid\<close> (clear the matched cells, then let the columns
  fall), followed by \<open>setSelectedIds([])\<close>.
\<close>

definition removeBlocks :: "Config \<Rightarrow> string list \<Rightarrow> Game \<Rightarrow> error + Game" where
  "removeBlocks cfg ids s =
     (case compactGravity cfg (map (map (clearCell ids)) (grid s)) of
        Inl e \<Rightarrow> Inl e
      | Inr newGrid \<Rightarrow> Inr (s\<lparr>grid := newGrid, selectedIds := []\<rparr>))"

section \<open>Grid: row insertion (addNewRow)\<close>

text \<open>
  The loop \<open>for (let r = 0; r < GRID_ROWS - 1; r++) newGrid[r] = [...newGrid[r + 1]]\<close>.
  With \<open>GRID_ROWS = 0\<close> the bound is -1 in the source and 0 here; the loop body never runs in
  either. Spreading \<open>newGrid[r + 1]\<close> beyond the last row throws a TypeError.
\<close>

function shiftRows :: "Config \<Rightarrow> nat \<Rightarrow> Grid \<Rightarrow> error + Grid" where
  "shiftRows cfg r newGrid =
     (if r < GRID_ROWS cfg - 1 then
        (if r + 1 < length newGrid
         then shiftRows cfg (r + 1) (newGrid[r := newGrid ! (r + 1)])
         else Inl TypeError)
      else Inr newGrid)"
  by pat_completeness auto
termination
  by (relation "measure (\<lambda>(cfg, r, g). GRID_ROWS cfg - 1 - r)") auto

text \<open>
  \<open>Array.from({ length: GRID_COLS }, () => createBlock())\<close>: \<open>rnd k\<close> holds the random draws
  of the \<open>k\<close>-th call.
\<close>

definition newRow :: "Config \<Rightarrow> (nat \<Rightarrow> string \<times> int) \<Rightarrow> Cell list" where
  "newRow cfg rnd = map (\<lambda>k. Some (createBlock (rnd k) None)) [0..<GRID_COLS cfg]"

text \<open>
  \<open>newGrid[GRID_ROWS - 1] = ...\<close>: with \<open>GRID_ROWS = 0\<close> the index is -1, which sets a property
  and leaves the elements alone; an index equal to the length appends; a larger one would
  leave holes.
\<close>

definition setBottomRow :: "Config \<Rightarrow> Cell list \<Rightarrow> Grid \<Rightarrow> error + Grid" where
  "setBottomRow cfg row newGrid =
     (if GRID_ROWS cfg = 0 then Inr newGrid
      else if GRID_ROWS cfg - 1 < length newGrid then Inr (newGrid[GRID_ROWS cfg - 1 := row])
      else if GRID_ROWS cfg - 1 = length newGrid then Inr (newGrid @ [row])
      else Inl UndefinedCell)"

text \<open>
  \<open>addNewRow\<close>: the updater of \<open>setGrid\<close>, which also calls \<open>setIsGameOver(true)\<close> when the top
  row is occupied, followed by \<open>setTimeLeft(TIME_LIMIT)\<close>. \<open>prev[0].some\<close> on a grid without
  rows throws a TypeError.
\<close>

definition addNewRow :: "Config \<Rightarrow> (nat \<Rightarrow> string \<times> int) \<Rightarrow> Game \<Rightarrow> error + Game" where
  "addNewRow cfg rnd s =
     (case grid s of
        [] \<Rightarrow> Inl TypeError
      | row0 # _ \<Rightarrow>
          if list_ex (\<lambda>cell. cell \<noteq> None) row0
          then Inr (s\<lparr>isGameOver := True, timeLeft := TIME_LIMIT cfg\<rparr>)
          else
            (case shiftRows cfg 0 (grid s) of
               Inl e \<Rightarrow> Inl e
             | Inr shifted \<Rightarrow>
                 (case setBottomRow cfg (newRow cfg rnd) shifted of
                    Inl e \<Rightarrow> Inl e
                  | Inr newGrid \<Rightarrow> Inr (s\<lparr>grid := newGrid, timeLeft := TIME_LIMIT cfg\<rparr>))))"

section \<open>Game session\<close>

text \<open>
  \<open>generateTarget\<close>: \<open>k\<close> is the random draw \<open>Math.floor(Math.random() * (MAX_TARGET -
  MIN_TARGET + 1))\<close>.
\<close>

definition generateTarget :: "Config \<Rightarrow> int \<Rightarrow> Game \<Rightarrow> Game" where
  "generateTarget cfg k s = s\<lparr>targetSum := k + MIN_TARGET cfg\<rparr>"

text \<open>
  \<open>initGame\<close>: an empty grid whose bottom \<open>INITIAL_ROWS\<close> rows are then filled, cell by cell,
  with new blocks; \<open>rnd\<close> is indexed by the order of the calls to \<open>createBlock\<close>. With more
  initial rows than rows the first filled row has a negative index: \<open>initialGrid[r]\<close> is
  \<open>undefined\<close> and the assignment into it throws, unless there is no column to fill.
\<close>

definition initGame ::
  "Config \<Rightarrow> (nat \<Rightarrow> string \<times> int) \<Rightarrow> int \<Rightarrow> GameMode \<Rightarrow> Game \<Rightarrow> error + Game" where
  "initGame cfg rnd k selectedMode s =
     (if GRID_ROWS cfg < INITIAL_ROWS cfg \<and> 0 < GRID_COLS cfg then Inl TypeError
      else
        (let emptyRows = replicate (GRID_ROWS cfg - INITIAL_ROWS cfg) (replicate (GRID_COLS cfg) None);
             filled = map (\<lambda>i. map (\<lambda>c. Some (createBlock (rnd (i * GRID_COLS cfg + c)) None))
                                 [0..<GRID_COLS cfg])
                          [0..<min (INITIAL_ROWS cfg) (GRID_ROWS cfg)]
         in Inr (generateTarget cfg k
                  (s\<lparr>grid := emptyRows @ filled, mode := Some selectedMode, score := 0,
                     isGameOver := False, selectedIds := []\<rparr>)
                  \<lparr>timeLeft := TIME_LIMIT cfg, isPaused := False\<rparr>)))"

text \<open>
  The callback that \<open>handleBlockClick\<close> schedules on an exact match, with the \<open>next\<close> and the
  \<open>mode\<close> of its closure: \<open>removeBlocks(next)\<close>, \<open>setScore((s) => s + next.length * 10)\<close>,
  \<open>generateTarget()\<close> and, in classic mode, \<open>addNewRow()\<close>.
\<close>

definition matchCallback ::
  "Config \<Rightarrow> int \<Rightarrow> (nat \<Rightarrow> string \<times> int) \<Rightarrow> string list \<Rightarrow> GameMode option \<Rightarrow> Game
     \<Rightarrow> error + Game" where
  "matchCallback cfg k rnd next m s =
     (case removeBlocks cfg next s of
        Inl e \<Rightarrow> Inl e
      | Inr s1 \<Rightarrow>
          (let s2 = s1\<lparr>score := score s1 + int (length next) * 10\<rparr>;
               s3 = generateTarget cfg k s2
           in if m = Some Classic then addNewRow cfg rnd s3 else Inr s3))"

text \<open>
  The interval callback of time mode: \<open>setTimeLeft((prev) => ...)\<close>, which calls \<open>addNewRow\<close>
  when the countdown is at 1 or below. The interval only exists while the mode is \<open>time\<close> and
  the game is neither over nor paused.
\<close>

definition timerTick :: "Config \<Rightarrow> (nat \<Rightarrow> string \<times> int) \<Rightarrow> Game \<Rightarrow> error + Game" where
  "timerTick cfg rnd s =
     (if mode s = Some Time \<and> \<not> isGameOver s \<and> \<not> isPaused s then
        (if timeLeft s \<le> 1 then
           (case addNewRow cfg rnd s of
              Inl e \<Rightarrow> Inl e
            | Inr s1 \<Rightarrow> Inr (s1\<lparr>timeLeft := TIME_LIMIT cfg\<rparr>))
         else Inr (s\<lparr>timeLeft := timeLeft s - 1\<rparr>))
      else Inr s)"

text \<open>The pause button: \<open>setIsPaused(!isPaused)\<close>.\<close>

definition pauseClick :: "Game \<Rightarrow> Game" where
  "pauseClick s = s\<lparr>isPaused := \<not> isPaused s\<rparr>"

text \<open>
  The events of a session after \<open>initGame\<close>: a click on a block, the firing of the oldest
  scheduled match callback (with the random draws its \<open>generateTarget\<close> and \<open>addNewRow\<close>
  make), a tick of the interval, a click on the pause button.
\<close>

datatype Event =
    Click Block
  | MatchTimeout int "nat \<Rightarrow> string \<times> int"
  | Tick "nat \<Rightarrow> string \<times> int"
  | PauseClick

definition step :: "Config \<Rightarrow> Event \<Rightarrow> Game \<Rightarrow> error + Game" where
  "step cfg e s =
     (case e of
        Click block \<Rightarrow> Inr (handleBlockClick s block)
      | MatchTimeout k rnd \<Rightarrow>
          (case pendingMatches s of
             [] \<Rightarrow> Inr s
           | (next, m) # rest \<Rightarrow> matchCallback cfg k rnd next m (s\<lparr>pendingMatches := rest\<rparr>))
      | Tick rnd \<Rightarrow> timerTick cfg rnd s
      | PauseClick \<Rightarrow> Inr (pauseClick s))"

section \<open>Observations used to state the properties\<close>

text \<open>The cells of column \<open>c\<close>, from the top row to the bottom row.\<close>

definition column :: "Grid \<Rightarrow> nat \<Rightarrow> Cell list" where
  "column g c = map (\<lambda>row. row ! c) g"

text \<open>The blocks of a list of cells, in order (the empty cells dropped).\<close>

definition blocksOf :: "Cell list \<Rightarrow> Cell list" where
  "blocksOf cells = filter (\<lambda>cell. cell \<noteq> None) cells"

text \<open>The grid has \<open>GRID_ROWS\<close> rows of \<open>GRID_COLS\<close> cells, as \<open>initGame\<close> builds it.\<close>

definition wellShaped :: "Config \<Rightarrow> Grid \<Rightarrow> bool" where
  "wellShaped cfg g \<longleftrightarrow>
     length g = GRID_ROWS cfg \<and> list_all (\<lambda>row. length row = GRID_COLS cfg) g"

text \<open>The cell holds a block with the id \<open>i\<close>.\<close>

definition carries :: "string \<Rightarrow> Cell \<Rightarrow> bool" where
  "carries i cell = (case cell of None \<Rightarrow> False | Some b \<Rightarrow> id_b b = i)"

text \<open>How many cells of the grid the first line of \<open>removeBlocks\<close> turns from a block to empty.\<close>

definition clearedBy :: "string list \<Rightarrow> Grid \<Rightarrow> nat" where
  "clearedBy ids g =
     length (filter (\<lambda>cell. cell \<noteq> None \<and> clearCell ids cell = None) (concat g))"

text \<open>
  What a match callback that is about to run will do: the number of ids of its selection and
  the number of blocks its removal clears. Other events log nothing.
\<close>

definition matchLog :: "Event \<Rightarrow> Game \<Rightarrow> (nat \<times> nat) list" where
  "matchLog e s =
     (case e of
        MatchTimeout k rnd \<Rightarrow>
          (case pendingMatches s of
             [] \<Rightarrow> []
           | (next, m) # rest \<Rightarrow> [(length next, clearedBy next (grid s))])
      | _ \<Rightarrow> [])"

text \<open>
  A session: the events in order, stopping at the first error, together with the log of
  the matches applied.
\<close>

fun run :: "Config \<Rightarrow> Event list \<Rightarrow> Game \<Rightarrow> error + Game \<times> (nat \<times> nat) list" where
  "run cfg [] s = Inr (s, [])"
| "run cfg (e # es) s =
     (case step cfg e s of
        Inl x \<Rightarrow> Inl x
      | Inr s1 \<Rightarrow>
          (case run cfg es s1 of
             Inl x \<Rightarrow> Inl x
           | Inr (t, log) \<Rightarrow> Inr (t, matchLog e s @ log)))"

text \<open>The equations of the two loops are applied by hand, one iteration at a time.\<close>

declare shiftRows.simps [simp del]

declare gravity.simps [simp del]

section \<open>The selection tracker\<close>

lemma foldl_plus_sum_list:
  "foldl (\<lambda>sum i. sum + f i) a xs = (a::int) + sum_list (map f xs)"
  by (induction xs arbitrary: a) simp_all

lemma currentSum_sum_list:
  "currentSum g xs = sum_list (map (\<lambda>i. valueOrZero (findBlock g i)) xs)"
  by (simp add: currentSum_def foldl_plus_sum_list)

lemma findBlock_unresolved:
  assumes "list_all (\<lambda>cell. case cell of None \<Rightarrow> True | Some b \<Rightarrow> id_b b \<noteq> i) (concat g)"
  shows "findBlock g i = None"
proof -
  have "\<not> (\<exists>item. item \<in> set (concat g) \<and> (case item of None \<Rightarrow> False | Some b \<Rightarrow> id_b b = i))"
    using assms unfolding list_all_iff by (auto split: option.splits)
  then show ?thesis
    unfolding findBlock_def find_None_iff .
qed

lemma currentSum_filter_zero:
  assumes "valueOrZero (findBlock g i) = 0"
  shows "currentSum g (filter (\<lambda>j. j \<noteq> i) xs) = currentSum g xs"
  using assms by (induction xs) (simp_all add: currentSum_sum_list)


lemma nextSelection_twice_set:
  "set (nextSelection (nextSelection prev i) i) = set prev"
  by (auto simp: nextSelection_def Let_def)

lemma nextSelection_twice_new:
  "i \<notin> set prev \<Longrightarrow> nextSelection (nextSelection prev i) i = prev"
proof -
  assume a: "i \<notin> set prev"
  then have "filter (\<lambda>j. j \<noteq> i) prev = prev"
    by (auto simp: filter_id_conv)
  with a show ?thesis
    by (simp add: nextSelection_def)
qed


text \<open>
  The selection a click leaves is empty or sums to less than the target, and so is the
  selection of the state after any click; every handler that changes the target
  (\<open>initGame\<close>, the match callback) also empties the selection, and the others (\<open>addNewRow\<close>,
  the interval) leave both alone. A selection that is not empty therefore sums to less than
  the target whenever a click arrives.
\<close>

lemma toggle_selection_below:
  "fst (toggle g target prev i) = [] \<or> currentSum g (fst (toggle g target prev i)) < target"
  by (simp add: toggle_def Let_def)

lemma handleBlockClick_selection_below:
  assumes "selectedIds s = [] \<or> currentSum (grid s) (selectedIds s) < targetSum s"
  shows "selectedIds (handleBlockClick s block) = [] \<or>
         currentSum (grid (handleBlockClick s block)) (selectedIds (handleBlockClick s block))
           < targetSum (handleBlockClick s block)"
proof (cases "isGameOver s \<or> isPaused s")
  case True
  then show ?thesis
    using assms by (simp add: handleBlockClick_def)
next
  case False
  obtain sel out where t: "toggle (grid s) (targetSum s) (selectedIds s) (id_b block) = (sel, out)"
    by (cases "toggle (grid s) (targetSum s) (selectedIds s) (id_b block)")
  have b: "sel = [] \<or> currentSum (grid s) sel < targetSum s"
    using toggle_selection_below [of "grid s" "targetSum s" "selectedIds s" "id_b block"] t
    by simp
  show ?thesis
    using False t b by (cases out) (simp_all add: handleBlockClick_def)
qed

lemma removeBlocks_clears_selection:
  "removeBlocks cfg ids s = Inr s1 \<Longrightarrow> selectedIds s1 = []"
  by (auto simp: removeBlocks_def split: sum.splits)

lemma addNewRow_keeps_selection:
  "addNewRow cfg rnd s = Inr s1 \<Longrightarrow>
     selectedIds s1 = selectedIds s \<and> targetSum s1 = targetSum s"
  by (auto simp: addNewRow_def split: list.splits sum.splits if_splits)

lemma matchCallback_clears_selection:
  assumes "matchCallback cfg k rnd ids m s = Inr s1"
  shows "selectedIds s1 = []"
proof -
  obtain s' where r: "removeBlocks cfg ids s = Inr s'"
    using assms by (auto simp: matchCallback_def split: sum.splits)
  have "selectedIds s' = []"
    using r by (rule removeBlocks_clears_selection)
  then show ?thesis
    using assms r
    by (auto simp: matchCallback_def Let_def generateTarget_def split: if_splits
             dest: addNewRow_keeps_selection)
qed

lemma initGame_clears_selection:
  "initGame cfg rnd k m s0 = Inr s1 \<Longrightarrow> selectedIds s1 = []"
  by (auto simp: initGame_def Let_def generateTarget_def split: if_splits)

lemma timerTick_keeps_selection:
  "timerTick cfg rnd s = Inr s1 \<Longrightarrow>
     selectedIds s1 = selectedIds s \<and> targetSum s1 = targetSum s"
  by (auto simp: timerTick_def split: if_splits sum.splits dest: addNewRow_keeps_selection)



text \<open>
  C5: a click on a block that is not selected appends its id; the sum of the values of the
  ids of the new selection, each resolved in the grid, decides the outcome. Equal to the
  target: EXACT_MATCH and the empty selection. Above the target: EXCEEDED and the empty
  selection. Below the target: CONTINUE and the new selection, which is not empty. The
  comparison is equality and order of integers.
\<close>

theorem toggle_append_outcome:
  assumes "i \<notin> set prev"
  shows "nextSelection prev i = prev @ [i] \<and>
         (currentSum g (prev @ [i]) = target \<longrightarrow> toggle g target prev i = ([], EXACT_MATCH)) \<and>
         (target < currentSum g (prev @ [i]) \<longrightarrow> toggle g target prev i = ([], EXCEEDED)) \<and>
         (currentSum g (prev @ [i]) < target \<longrightarrow>
            toggle g target prev i = (prev @ [i], CONTINUE) \<and> prev @ [i] \<noteq> [])"
  using assms by (simp add: toggle_def nextSelection_def Let_def)

theorem toggle_append_outcome_witness:
  "''b'' \<notin> set [''a''] \<and>
   toggle [[Some \<lparr>id_b = ''a'', value_b = 2, isSelected = False\<rparr>,
            Some \<lparr>id_b = ''b'', value_b = 3, isSelected = False\<rparr>]] 5 [''a''] ''b''
     = ([], EXACT_MATCH)"
  using toggle_append_outcome [of "''b''" "[''a'']"
      "[[Some \<lparr>id_b = ''a'', value_b = 2, isSelected = False\<rparr>,
            Some \<lparr>id_b = ''b'', value_b = 3, isSelected = False\<rparr>]]" 5]
  by (simp add: currentSum_def findBlock_def valueOrZero_def)

text \<open>
  C6, as the claim states it, fails when the first of the two clicks reaches the target: with
  the blocks a = 2 and b = 3, the target 5 and the selection [a], the first click on b is an
  exact match and empties the selection, and the second click on b selects b alone.
\<close>

theorem toggle_twice_after_match:
  "toggle [[Some \<lparr>id_b = ''a'', value_b = 2, isSelected = False\<rparr>,
            Some \<lparr>id_b = ''b'', value_b = 3, isSelected = False\<rparr>]] 5 [''a''] ''b''
     = ([], EXACT_MATCH) \<and>
   toggle [[Some \<lparr>id_b = ''a'', value_b = 2, isSelected = False\<rparr>,
            Some \<lparr>id_b = ''b'', value_b = 3, isSelected = False\<rparr>]] 5 [] ''b''
     = ([''b''], CONTINUE) \<and>
   set [''b''] \<noteq> set [''a'']"
  by (simp add: toggle_def nextSelection_def currentSum_def findBlock_def valueOrZero_def)

text \<open>
  C6, amended: when the sum of the selection stays below the target both without \<open>i\<close> and
  with \<open>i\<close>, two clicks in a row on \<open>i\<close> both have the outcome CONTINUE and give back the
  same set of selected ids; when \<open>i\<close> was not selected they give back the same sequence (an
  id that was selected moves to the end).
\<close>

theorem toggle_twice:
  assumes "currentSum g (filter (\<lambda>j. j \<noteq> i) prev) < target"
    and "currentSum g (filter (\<lambda>j. j \<noteq> i) prev @ [i]) < target"
  shows "toggle g target prev i = (nextSelection prev i, CONTINUE) \<and>
         toggle g target (nextSelection prev i) i
           = (nextSelection (nextSelection prev i) i, CONTINUE) \<and>
         set (nextSelection (nextSelection prev i) i) = set prev \<and>
         (i \<notin> set prev \<longrightarrow> nextSelection (nextSelection prev i) i = prev)"
proof (cases "i \<in> set prev")
  case True
  then have n1: "nextSelection prev i = filter (\<lambda>j. j \<noteq> i) prev"
    by (simp add: nextSelection_def)
  then have n2: "nextSelection (nextSelection prev i) i = filter (\<lambda>j. j \<noteq> i) prev @ [i]"
    by (simp add: nextSelection_def)
  have t1: "toggle g target prev i = (nextSelection prev i, CONTINUE)"
    using assms(1) n1 by (simp add: toggle_def Let_def)
  have t2: "toggle g target (nextSelection prev i) i
              = (nextSelection (nextSelection prev i) i, CONTINUE)"
    using assms(2) n2 by (simp add: toggle_def Let_def)
  show ?thesis
    using t1 t2 True nextSelection_twice_set by simp
next
  case False
  then have f: "filter (\<lambda>j. j \<noteq> i) prev = prev"
    by (auto simp: filter_id_conv)
  have n1: "nextSelection prev i = prev @ [i]"
    using False by (simp add: nextSelection_def)
  have n2: "nextSelection (nextSelection prev i) i = prev"
    using False by (rule nextSelection_twice_new)
  have t1: "toggle g target prev i = (nextSelection prev i, CONTINUE)"
    using assms(2) n1 f by (simp add: toggle_def Let_def)
  have t2: "toggle g target (nextSelection prev i) i
              = (nextSelection (nextSelection prev i) i, CONTINUE)"
    using assms(1) n2 f by (simp add: toggle_def Let_def)
  show ?thesis
    using t1 t2 n2 by simp
qed

theorem toggle_twice_witness:
  "toggle [[Some \<lparr>id_b = ''a'', value_b = 2, isSelected = False\<rparr>,
            Some \<lparr>id_b = ''b'', value_b = 3, isSelected = False\<rparr>]] 9 [''a''] ''b''
     = ([''a'', ''b''], CONTINUE) \<and>
   toggle [[Some \<lparr>id_b = ''a'', value_b = 2, isSelected = False\<rparr>,
            Some \<lparr>id_b = ''b'', value_b = 3, isSelected = False\<rparr>]] 9 [''a'', ''b''] ''b''
     = ([''a''], CONTINUE)"
  using toggle_twice [of "[[Some \<lparr>id_b = ''a'', value_b = 2, isSelected = False\<rparr>,
            Some \<lparr>id_b = ''b'', value_b = 3, isSelected = False\<rparr>]]" "''b''" "[''a'']" 9]
  by (simp add: currentSum_def findBlock_def valueOrZero_def nextSelection_def)

text \<open>
  C7: when the game is running and a click brings the sum of the selection above the target,
  the outcome is EXCEEDED and the click changes nothing but the selection, which becomes
  empty: the grid and the score are as before and no removal is scheduled.
\<close>

theorem exceeded_resets_selection_only:
  assumes "\<not> isGameOver s" and "\<not> isPaused s"
    and "targetSum s < currentSum (grid s) (nextSelection (selectedIds s) (id_b block))"
  shows "toggle (grid s) (targetSum s) (selectedIds s) (id_b block) = ([], EXCEEDED) \<and>
         handleBlockClick s block = s\<lparr>selectedIds := []\<rparr> \<and>
         selectedIds (handleBlockClick s block) = [] \<and>
         grid (handleBlockClick s block) = grid s \<and>
         score (handleBlockClick s block) = score s \<and>
         pendingMatches (handleBlockClick s block) = pendingMatches s"
proof -
  have t: "toggle (grid s) (targetSum s) (selectedIds s) (id_b block) = ([], EXCEEDED)"
    using assms(3) by (simp add: toggle_def Let_def)
  then have h: "handleBlockClick s block = s\<lparr>selectedIds := []\<rparr>"
    using assms(1,2) by (simp add: handleBlockClick_def)
  show ?thesis
    using t h by simp
qed

theorem exceeded_resets_selection_only_witness:
  "handleBlockClick
     \<lparr>mode = Some Time, grid = [[Some \<lparr>id_b = ''a'', value_b = 2, isSelected = False\<rparr>,
            Some \<lparr>id_b = ''b'', value_b = 3, isSelected = False\<rparr>]], targetSum = 4, score = 30, isGameOver = False,
      timeLeft = 7, selectedIds = [''a''], isPaused = False, pendingMatches = []\<rparr>
     \<lparr>id_b = ''b'', value_b = 3, isSelected = False\<rparr>
   = \<lparr>mode = Some Time, grid = [[Some \<lparr>id_b = ''a'', value_b = 2, isSelected = False\<rparr>,
            Some \<lparr>id_b = ''b'', value_b = 3, isSelected = False\<rparr>]], targetSum = 4, score = 30, isGameOver = False,
      timeLeft = 7, selectedIds = [], isPaused = False, pendingMatches = []\<rparr>"
  using exceeded_resets_selection_only [of
     "\<lparr>mode = Some Time, grid = [[Some \<lparr>id_b = ''a'', value_b = 2, isSelected = False\<rparr>,
            Some \<lparr>id_b = ''b'', value_b = 3, isSelected = False\<rparr>]], targetSum = 4, score = 30, isGameOver = False,
      timeLeft = 7, selectedIds = [''a''], isPaused = False, pendingMatches = []\<rparr>"
     "\<lparr>id_b = ''b'', value_b = 3, isSelected = False\<rparr>"]
  by (simp add: currentSum_def findBlock_def valueOrZero_def nextSelection_def)

text \<open>
  C9: an id that no block of the grid carries resolves to nothing and adds 0 to the sum of a
  selection; the click goes on to classify the sum of the other ids, and no step of it can
  fail.
\<close>

theorem unresolved_id_counts_zero:
  assumes "list_all (\<lambda>cell. case cell of None \<Rightarrow> True | Some b \<Rightarrow> id_b b \<noteq> i) (concat g)"
  shows "findBlock g i = None \<and> valueOrZero (findBlock g i) = 0 \<and>
         currentSum g (xs @ i # ys) = currentSum g (xs @ ys) \<and>
         toggle g target prev j =
           (let next = nextSelection prev j;
                total = currentSum g (filter (\<lambda>x. x \<noteq> i) next)
            in if total = target then ([], EXACT_MATCH)
               else if total > target then ([], EXCEEDED)
               else (next, CONTINUE))"
proof -
  have n: "findBlock g i = None"
    using assms by (rule findBlock_unresolved)
  then have z: "valueOrZero (findBlock g i) = 0"
    by (simp add: valueOrZero_def)
  have s: "currentSum g (xs @ i # ys) = currentSum g (xs @ ys)"
    using z by (simp add: currentSum_sum_list)
  have t: "currentSum g (filter (\<lambda>x. x \<noteq> i) (nextSelection prev j))
             = currentSum g (nextSelection prev j)"
    using z by (rule currentSum_filter_zero)
  show ?thesis
    using n z s t by (simp add: toggle_def Let_def)
qed

theorem unresolved_id_counts_zero_witness:
  "currentSum [[Some \<lparr>id_b = ''a'', value_b = 2, isSelected = False\<rparr>, None]]
      ([''a''] @ ''zz'' # []) = 2 \<and>
   toggle [[Some \<lparr>id_b = ''a'', value_b = 2, isSelected = False\<rparr>, None]] 5 [''a''] ''zz''
     = ([''a'', ''zz''], CONTINUE)"
  using unresolved_id_counts_zero [of "''zz''"
      "[[Some \<lparr>id_b = ''a'', value_b = 2, isSelected = False\<rparr>, None]]"
      "[''a'']" "[]" 5 "[''a'']" "''zz''"]
  by (simp add: currentSum_def findBlock_def valueOrZero_def nextSelection_def)

section \<open>Row insertion\<close>

lemma shiftRows_result:
  assumes "r \<le> GRID_ROWS cfg - 1" and "GRID_ROWS cfg \<le> length g"
  shows "shiftRows cfg r g
           = Inr (take r g @ take (GRID_ROWS cfg - 1 - r) (drop (r + 1) g) @ drop (GRID_ROWS cfg - 1) g)"
  using assms
proof (induction cfg r g rule: shiftRows.induct)
  case (1 cfg r newGrid)
  let ?R = "GRID_ROWS cfg"
  show ?case
  proof (cases "r < ?R - 1")
    case False
    with "1.prems" have e: "r = ?R - 1" by simp
    have "shiftRows cfg r newGrid = Inr newGrid"
      using False by (subst shiftRows.simps) simp
    with e show ?thesis by simp
  next
    case True
    with "1.prems" have inr: "r + 1 < length newGrid" by simp
    let ?g = "newGrid[r := newGrid ! (r + 1)]"
    have ih: "shiftRows cfg (r + 1) ?g
           = Inr (take (r + 1) ?g @ take (?R - 1 - (r + 1)) (drop (r + 1 + 1) ?g) @ drop (?R - 1) ?g)"
      using "1.IH" [OF True inr] True "1.prems" by simp
    have a: "take (r + 1) ?g = take r newGrid @ [newGrid ! (r + 1)]"
      using inr by (simp add: take_Suc_conv_app_nth)
    have b: "drop (r + 1 + 1) ?g = drop (r + 2) newGrid"
      by simp
    have c: "drop (?R - 1) ?g = drop (?R - 1) newGrid"
      using True by simp
    have d: "take (?R - 1 - r) (drop (r + 1) newGrid)
               = newGrid ! (r + 1) # take (?R - 1 - (r + 1)) (drop (r + 2) newGrid)"
    proof -
      have "drop (r + 1) newGrid = newGrid ! (r + 1) # drop (r + 2) newGrid"
        using inr by (simp add: Cons_nth_drop_Suc)
      moreover have "?R - 1 - r = Suc (?R - 1 - (r + 1))"
        using True by simp
      ultimately show ?thesis by simp
    qed
    have "shiftRows cfg r newGrid = shiftRows cfg (r + 1) ?g"
      using True inr by (subst shiftRows.simps) simp
    then show ?thesis
      using ih a b c d by simp
  qed
qed

lemma newRow_length: "length (newRow cfg rnd) = GRID_COLS cfg"
  by (simp add: newRow_def)

lemma newRow_blocks: "list_all (\<lambda>cell. cell \<noteq> None) (newRow cfg rnd)"
  by (simp add: newRow_def list_all_iff)

lemma newRow_nth:
  "c < GRID_COLS cfg \<Longrightarrow> newRow cfg rnd ! c = Some (createBlock (rnd c) None)"
  by (simp add: newRow_def)

lemma addNewRow_shape_ok:
  assumes "grid s = row0 # rest" and "\<not> list_ex (\<lambda>cell. cell \<noteq> None) row0"
    and "GRID_ROWS cfg \<le> length (grid s)"
  shows "addNewRow cfg rnd s
           = Inr (s\<lparr>grid := (if GRID_ROWS cfg = 0 then grid s
                            else take (GRID_ROWS cfg - 1) rest @ newRow cfg rnd # drop (GRID_ROWS cfg) (grid s)),
                   timeLeft := TIME_LIMIT cfg\<rparr>)"
proof -
  let ?R = "GRID_ROWS cfg"
  let ?g = "grid s"
  have sh: "shiftRows cfg 0 ?g = Inr (take (?R - 1) (drop 1 ?g) @ drop (?R - 1) ?g)"
    using shiftRows_result [of 0 cfg ?g] assms(3) by simp
  let ?sh = "take (?R - 1) (drop 1 ?g) @ drop (?R - 1) ?g"
  have len: "length ?sh = length ?g"
    using assms(3) assms(1) by simp
  show ?thesis
  proof (cases "?R = 0")
    case True
    then show ?thesis
      using assms(1,2) sh by (simp add: addNewRow_def setBottomRow_def)
  next
    case False
    then have lt: "?R - 1 < length ?sh"
      using len assms(3) by simp
    have l1: "length (take (?R - 1) (drop 1 ?g)) = ?R - 1"
      using assms(3) False by simp
    have upd: "?sh[?R - 1 := newRow cfg rnd]
                 = take (?R - 1) (drop 1 ?g) @ (drop (?R - 1) ?g)[0 := newRow cfg rnd]"
      using l1 by (simp add: list_update_append)
    have dr: "drop (?R - 1) ?g = ?g ! (?R - 1) # drop ?R ?g"
      using assms(3) False Cons_nth_drop_Suc [of "?R - 1" ?g] by simp
    have "setBottomRow cfg (newRow cfg rnd) ?sh
            = Inr (take (?R - 1) (drop 1 ?g) @ newRow cfg rnd # drop ?R ?g)"
      using False lt upd dr by (simp add: setBottomRow_def)
    then show ?thesis
      using assms(1,2) sh False by (simp add: addNewRow_def)
  qed
qed

lemma find_append_cases:
  "List.find P (xs @ ys) = (case List.find P xs of None \<Rightarrow> List.find P ys | Some x \<Rightarrow> Some x)"
  by (induction xs) auto

text \<open>
  A new row does not change what an id resolves to when a block of the grid carries it: the
  rows keep their order, the row that goes was empty and the new blocks come last.
\<close>

lemma findBlock_after_addNewRow:
  assumes "addNewRow cfg rnd s = Inr s1" and "length (grid s) = GRID_ROWS cfg"
    and "findBlock (grid s) i \<noteq> None"
  shows "findBlock (grid s1) i = findBlock (grid s) i"
proof -
  let ?P = "\<lambda>item. case item of None \<Rightarrow> False | Some b \<Rightarrow> id_b b = i"
  obtain row0 rest where g: "grid s = row0 # rest"
    using assms(1) by (cases "grid s") (auto simp: addNewRow_def)
  show ?thesis
  proof (cases "list_ex (\<lambda>cell. cell \<noteq> None) row0")
    case True
    then show ?thesis
      using assms(1) g by (auto simp: addNewRow_def)
  next
    case False
    have R: "GRID_ROWS cfg = Suc (length rest)"
      using assms(2) g by simp
    have "addNewRow cfg rnd s
            = Inr (s\<lparr>grid := rest @ [newRow cfg rnd], timeLeft := TIME_LIMIT cfg\<rparr>)"
      using addNewRow_shape_ok [OF g False, of cfg rnd] g R by simp
    then have g1: "grid s1 = rest @ [newRow cfg rnd]"
      using assms(1) by auto
    have "\<not> (\<exists>x. x \<in> set row0 \<and> ?P x)"
      using False by (auto simp: list_ex_iff split: option.splits)
    then have r0: "List.find ?P row0 = None"
      unfolding find_None_iff .
    have old: "findBlock (grid s) i = List.find ?P (concat rest)"
      using g r0 by (simp add: findBlock_def find_append_cases)
    then have "List.find ?P (concat rest) \<noteq> None"
      using assms(3) by simp
    then have "List.find ?P (concat rest @ newRow cfg rnd) = List.find ?P (concat rest)"
      by (auto simp: find_append_cases split: option.splits)
    then show ?thesis
      using g1 old by (simp add: findBlock_def)
  qed
qed

text \<open>
  C2: when the top row of the grid holds at least one block, \<open>addNewRow\<close> sets the game-over
  flag and returns the grid it was given: the occupancy test comes first and its branch
  returns \<open>prev\<close> itself, before any row is copied or written.
\<close>

theorem addNewRow_top_occupied:
  assumes "grid s = row0 # rest" and "list_ex (\<lambda>cell. cell \<noteq> None) row0"
  shows "addNewRow cfg rnd s = Inr (s\<lparr>isGameOver := True, timeLeft := TIME_LIMIT cfg\<rparr>) \<and>
         grid (s\<lparr>isGameOver := True, timeLeft := TIME_LIMIT cfg\<rparr>) = grid s \<and>
         isGameOver (s\<lparr>isGameOver := True, timeLeft := TIME_LIMIT cfg\<rparr>)"
  using assms by (simp add: addNewRow_def)

theorem addNewRow_top_occupied_witness:
  "addNewRow \<lparr>GRID_COLS = 2, GRID_ROWS = 2, INITIAL_ROWS = 1, TIME_LIMIT = 10, MIN_TARGET = 1, MAX_TARGET = 9\<rparr> (\<lambda>k. if k = 0 then (''n0'', 4) else (''n1'', 7))
     \<lparr>mode = Some Time, grid = [[Some \<lparr>id_b = ''a'', value_b = 2, isSelected = False\<rparr>, None], [Some \<lparr>id_b = ''b'', value_b = 3, isSelected = False\<rparr>, None]], targetSum = 5, score = 0, isGameOver = False,
      timeLeft = 3, selectedIds = [], isPaused = False, pendingMatches = []\<rparr>
   = Inr \<lparr>mode = Some Time, grid = [[Some \<lparr>id_b = ''a'', value_b = 2, isSelected = False\<rparr>, None], [Some \<lparr>id_b = ''b'', value_b = 3, isSelected = False\<rparr>, None]], targetSum = 5, score = 0, isGameOver = True,
      timeLeft = 10, selectedIds = [], isPaused = False, pendingMatches = []\<rparr>"
  using addNewRow_top_occupied [of "\<lparr>mode = Some Time, grid = [[Some \<lparr>id_b = ''a'', value_b = 2, isSelected = False\<rparr>, None], [Some \<lparr>id_b = ''b'', value_b = 3, isSelected = False\<rparr>, None]], targetSum = 5, score = 0, isGameOver = False,
      timeLeft = 3, selectedIds = [], isPaused = False, pendingMatches = []\<rparr>" "[Some \<lparr>id_b = ''a'', value_b = 2, isSelected = False\<rparr>, None]" "[[Some \<lparr>id_b = ''b'', value_b = 3, isSelected = False\<rparr>, None]]" "\<lparr>GRID_COLS = 2, GRID_ROWS = 2, INITIAL_ROWS = 1, TIME_LIMIT = 10, MIN_TARGET = 1, MAX_TARGET = 9\<rparr>" "(\<lambda>k. if k = 0 then (''n0'', 4) else (''n1'', 7))"]
  by simp

text \<open>
  C3: when the grid has \<open>GRID_ROWS\<close> rows and its top row is empty, \<open>addNewRow\<close> returns the
  grid whose rows 0..R-2 are the former rows 1..R-1 and whose row R-1 is a whole new row: one
  newly created block in each of the \<open>GRID_COLS\<close> columns and no empty cell, whatever the
  former row R-1 held (its cells are now row R-2).
\<close>

theorem addNewRow_top_empty:
  assumes "grid s = row0 # rest" and "\<not> list_ex (\<lambda>cell. cell \<noteq> None) row0"
    and "length (grid s) = GRID_ROWS cfg"
  shows "addNewRow cfg rnd s
           = Inr (s\<lparr>grid := rest @ [newRow cfg rnd], timeLeft := TIME_LIMIT cfg\<rparr>) \<and>
         length (rest @ [newRow cfg rnd]) = GRID_ROWS cfg \<and>
         (\<forall>r. r + 1 < GRID_ROWS cfg \<longrightarrow> (rest @ [newRow cfg rnd]) ! r = grid s ! (r + 1)) \<and>
         (rest @ [newRow cfg rnd]) ! (GRID_ROWS cfg - 1) = newRow cfg rnd \<and>
         length (newRow cfg rnd) = GRID_COLS cfg \<and>
         (\<forall>c. c < GRID_COLS cfg \<longrightarrow> newRow cfg rnd ! c = Some (createBlock (rnd c) None))"
proof -
  have R: "GRID_ROWS cfg = Suc (length rest)"
    using assms(1,3) by simp
  have a: "addNewRow cfg rnd s
             = Inr (s\<lparr>grid := rest @ [newRow cfg rnd], timeLeft := TIME_LIMIT cfg\<rparr>)"
    using addNewRow_shape_ok [OF assms(1,2), of cfg rnd] assms(1) R by simp
  have b: "\<forall>r. r + 1 < GRID_ROWS cfg \<longrightarrow> (rest @ [newRow cfg rnd]) ! r = grid s ! (r + 1)"
    using assms(1) R by (simp add: nth_append)
  have c: "(rest @ [newRow cfg rnd]) ! (GRID_ROWS cfg - 1) = newRow cfg rnd"
    using R by simp
  show ?thesis
    using a b c R newRow_length newRow_nth by simp
qed

theorem addNewRow_top_empty_witness:
  "addNewRow \<lparr>GRID_COLS = 2, GRID_ROWS = 2, INITIAL_ROWS = 1, TIME_LIMIT = 10, MIN_TARGET = 1, MAX_TARGET = 9\<rparr> (\<lambda>k. if k = 0 then (''n0'', 4) else (''n1'', 7))
     \<lparr>mode = Some Time, grid = [[None, None], [Some \<lparr>id_b = ''a'', value_b = 2, isSelected = False\<rparr>, None]], targetSum = 5, score = 0, isGameOver = False,
      timeLeft = 3, selectedIds = [], isPaused = False, pendingMatches = []\<rparr>
   = Inr \<lparr>mode = Some Time, grid = [[Some \<lparr>id_b = ''a'', value_b = 2, isSelected = False\<rparr>, None], [Some \<lparr>id_b = ''n0'', value_b = 4, isSelected = False\<rparr>, Some \<lparr>id_b = ''n1'', value_b = 7, isSelected = False\<rparr>]], targetSum = 5, score = 0, isGameOver = False,
      timeLeft = 10, selectedIds = [], isPaused = False, pendingMatches = []\<rparr>"
  using addNewRow_top_empty [of "\<lparr>mode = Some Time, grid = [[None, None], [Some \<lparr>id_b = ''a'', value_b = 2, isSelected = False\<rparr>, None]], targetSum = 5, score = 0, isGameOver = False,
      timeLeft = 3, selectedIds = [], isPaused = False, pendingMatches = []\<rparr>" "[None, None]" "[[Some \<lparr>id_b = ''a'', value_b = 2, isSelected = False\<rparr>, None]]" "\<lparr>GRID_COLS = 2, GRID_ROWS = 2, INITIAL_ROWS = 1, TIME_LIMIT = 10, MIN_TARGET = 1, MAX_TARGET = 9\<rparr>" "(\<lambda>k. if k = 0 then (''n0'', 4) else (''n1'', 7))"]
  by (simp add: newRow_def createBlock_def upt_rec)

text \<open>
  C10: whenever \<open>addNewRow\<close> returns, the countdown is \<open>TIME_LIMIT\<close>; it returns on every grid
  that is not empty and has at least \<open>GRID_ROWS\<close> rows, and on every grid whose top row is
  occupied, where it signals game over and still resets the countdown.
\<close>

theorem addNewRow_resets_timeLeft:
  "(\<forall>s1. addNewRow cfg rnd s = Inr s1 \<longrightarrow> timeLeft s1 = TIME_LIMIT cfg) \<and>
   (grid s \<noteq> [] \<and> GRID_ROWS cfg \<le> length (grid s) \<longrightarrow>
      (\<exists>s1. addNewRow cfg rnd s = Inr s1)) \<and>
   (grid s \<noteq> [] \<and> list_ex (\<lambda>cell. cell \<noteq> None) (hd (grid s)) \<longrightarrow>
      (\<exists>s1. addNewRow cfg rnd s = Inr s1 \<and> isGameOver s1 \<and> timeLeft s1 = TIME_LIMIT cfg))"
proof -
  have a: "\<forall>s1. addNewRow cfg rnd s = Inr s1 \<longrightarrow> timeLeft s1 = TIME_LIMIT cfg"
    by (auto simp: addNewRow_def split: list.splits sum.splits if_splits)
  have b: "grid s \<noteq> [] \<and> GRID_ROWS cfg \<le> length (grid s) \<longrightarrow>
      (\<exists>s1. addNewRow cfg rnd s = Inr s1)"
  proof
    assume h: "grid s \<noteq> [] \<and> GRID_ROWS cfg \<le> length (grid s)"
    then obtain row0 rest where g: "grid s = row0 # rest"
      by (cases "grid s") auto
    show "\<exists>s1. addNewRow cfg rnd s = Inr s1"
    proof (cases "list_ex (\<lambda>cell. cell \<noteq> None) row0")
      case True
      then show ?thesis using g by (simp add: addNewRow_def)
    next
      case False
      then show ?thesis
        using addNewRow_shape_ok [OF g False, of cfg rnd] h by simp
    qed
  qed
  have c: "grid s \<noteq> [] \<and> list_ex (\<lambda>cell. cell \<noteq> None) (hd (grid s)) \<longrightarrow>
      (\<exists>s1. addNewRow cfg rnd s = Inr s1 \<and> isGameOver s1 \<and> timeLeft s1 = TIME_LIMIT cfg)"
    by (cases "grid s") (simp_all add: addNewRow_def)
  show ?thesis
    using a b c by blast
qed

theorem addNewRow_resets_timeLeft_witness:
  "addNewRow \<lparr>GRID_COLS = 2, GRID_ROWS = 2, INITIAL_ROWS = 1, TIME_LIMIT = 10, MIN_TARGET = 1, MAX_TARGET = 9\<rparr> (\<lambda>k. if k = 0 then (''n0'', 4) else (''n1'', 7))
     \<lparr>mode = Some Time, grid = [[Some \<lparr>id_b = ''a'', value_b = 2, isSelected = False\<rparr>, None], [Some \<lparr>id_b = ''b'', value_b = 3, isSelected = False\<rparr>, None]], targetSum = 5, score = 0, isGameOver = False,
      timeLeft = 3, selectedIds = [], isPaused = False, pendingMatches = []\<rparr>
   = Inr \<lparr>mode = Some Time, grid = [[Some \<lparr>id_b = ''a'', value_b = 2, isSelected = False\<rparr>, None], [Some \<lparr>id_b = ''b'', value_b = 3, isSelected = False\<rparr>, None]], targetSum = 5, score = 0, isGameOver = True,
      timeLeft = 10, selectedIds = [], isPaused = False, pendingMatches = []\<rparr> \<and>
   timeLeft \<lparr>mode = Some Time, grid = [[Some \<lparr>id_b = ''a'', value_b = 2, isSelected = False\<rparr>, None], [Some \<lparr>id_b = ''b'', value_b = 3, isSelected = False\<rparr>, None]], targetSum = 5, score = 0, isGameOver = True,
      timeLeft = 10, selectedIds = [], isPaused = False, pendingMatches = []\<rparr> = TIME_LIMIT \<lparr>GRID_COLS = 2, GRID_ROWS = 2, INITIAL_ROWS = 1, TIME_LIMIT = 10, MIN_TARGET = 1, MAX_TARGET = 9\<rparr>"
  using addNewRow_resets_timeLeft [of "\<lparr>GRID_COLS = 2, GRID_ROWS = 2, INITIAL_ROWS = 1, TIME_LIMIT = 10, MIN_TARGET = 1, MAX_TARGET = 9\<rparr>" "(\<lambda>k. if k = 0 then (''n0'', 4) else (''n1'', 7))" "\<lparr>mode = Some Time, grid = [[Some \<lparr>id_b = ''a'', value_b = 2, isSelected = False\<rparr>, None], [Some \<lparr>id_b = ''b'', value_b = 3, isSelected = False\<rparr>, None]], targetSum = 5, score = 0, isGameOver = False,
      timeLeft = 3, selectedIds = [], isPaused = False, pendingMatches = []\<rparr>"]
  by (simp add: addNewRow_def)

section \<open>Gravity\<close>

lemma column_length: "length (column g c) = length g"
  by (simp add: column_def)

lemma column_nth: "r < length g \<Longrightarrow> column g c ! r = g ! r ! c"
  by (simp add: column_def)

lemma column_set_cell:
  assumes "r < length g" and "c < length (g ! r)"
  shows "column (g[r := (g ! r)[c := v]]) c = (column g c)[r := v]"
  using assms by (simp add: column_def map_update)

lemma column_set_cell_other:
  assumes "c' \<noteq> c"
  shows "column (g[r := (g ! r)[c := v]]) c' = column g c'"
proof (cases "r < length g")
  case True
  have "column (g[r := (g ! r)[c := v]]) c' = (column g c')[r := g ! r ! c']"
    using assms by (simp add: column_def map_update)
  also have "\<dots> = column g c'"
    using True by (simp add: column_def list_update_same_conv)
  finally show ?thesis .
next
  case False
  then show ?thesis by (simp add: list_update_beyond)
qed

lemma wellShaped_rows:
  "wellShaped cfg g \<Longrightarrow> r < length g \<Longrightarrow> length (g ! r) = GRID_COLS cfg"
  by (simp add: wellShaped_def list_all_length)

lemma wellShaped_set_cell:
  assumes "wellShaped cfg g"
  shows "wellShaped cfg (g[r := (g ! r)[c := v]])"
proof (cases "r < length g")
  case True
  then show ?thesis
    using assms by (auto simp: wellShaped_def list_all_length nth_list_update)
next
  case False
  then show ?thesis
    using assms by (simp add: list_update_beyond)
qed

lemma take_all_None:
  "k \<le> length xs \<Longrightarrow> \<forall>i<k. xs ! i = None \<Longrightarrow> take k xs = replicate k None"
  by (simp add: list_eq_iff_nth_eq)

lemma fallRows_column:
  assumes "wellShaped cfg g" and "c < GRID_COLS cfg" and "n \<le> E" and "E \<le> GRID_ROWS cfg"
    and "\<forall>i. n \<le> i \<and> i < E \<longrightarrow> column g c ! i = None"
  shows "\<exists>g'. fallRows c n (int E - 1) g = Inr g' \<and> wellShaped cfg g' \<and>
           (\<forall>c'. c' \<noteq> c \<longrightarrow> column g' c' = column g c') \<and>
           column g' c = replicate (E - length (blocksOf (take n (column g c)))) None
                          @ blocksOf (take n (column g c)) @ drop E (column g c)"
  using assms
proof (induction n arbitrary: E g)
  case 0
  have len: "length (column g c) = GRID_ROWS cfg"
    using "0.prems"(1) by (simp add: column_def wellShaped_def)
  have "take E (column g c) = replicate E None"
    using "0.prems"(4,5) len by (intro take_all_None) auto
  then have "column g c = replicate E None @ drop E (column g c)"
    by (metis append_take_drop_id)
  then show ?case
    using "0.prems"(1) by (simp add: blocksOf_def)
next
  case (Suc r)
  let ?col = "column g c"
  have lg: "length g = GRID_ROWS cfg"
    using Suc.prems(1) by (simp add: wellShaped_def)
  have r: "r < length g"
    using Suc.prems(3,4) lg by simp
  have cr: "c < length (g ! r)"
    using wellShaped_rows [OF Suc.prems(1) r] Suc.prems(2) by simp
  have colr: "?col ! r = g ! r ! c"
    using r by (rule column_nth)
  have lcol: "length ?col = length g"
    by (rule column_length)
  show ?case
  proof (cases "g ! r ! c")
    case None
    have pre: "\<forall>i. r \<le> i \<and> i < E \<longrightarrow> ?col ! i = None"
    proof (intro allI impI)
      fix i assume "r \<le> i \<and> i < E"
      then show "?col ! i = None"
        using Suc.prems(5) colr None by (cases "i = r") auto
    qed
    have rE: "r \<le> E"
      using Suc.prems(3) by simp
    obtain g' where g': "fallRows c r (int E - 1) g = Inr g'" "wellShaped cfg g'"
        "\<forall>c'. c' \<noteq> c \<longrightarrow> column g' c' = column g c'"
        "column g' c = replicate (E - length (blocksOf (take r ?col))) None
                          @ blocksOf (take r ?col) @ drop E ?col"
      using Suc.IH [OF Suc.prems(1,2) rE Suc.prems(4) pre] by blast
    have tk: "blocksOf (take (Suc r) ?col) = blocksOf (take r ?col)"
      using r lcol colr None by (simp add: take_Suc_conv_app_nth blocksOf_def)
    have step: "fallRows c (Suc r) (int E - 1) g = fallRows c r (int E - 1) g"
      using r cr None by simp
    show ?thesis
      using g' tk step by simp
  next
    case (Some temp)
    define g1 where "g1 = g[r := (g ! r)[c := None]]"
    define g2 where "g2 = g1[E - 1 := (g1 ! (E - 1))[c := Some temp]]"
    have E1: "1 \<le> E" and rE: "r \<le> E - 1"
      using Suc.prems(3) by simp_all
    have e: "nat (int E - 1) = E - 1" "\<not> int E - 1 < 0" "int E - 1 - 1 = int (E - 1) - 1"
      using E1 by simp_all
    have ws1: "wellShaped cfg g1"
      unfolding g1_def using Suc.prems(1) by (rule wellShaped_set_cell)
    have ws2: "wellShaped cfg g2"
      unfolding g2_def using ws1 by (rule wellShaped_set_cell)
    have l1: "length g1 = length g"
      by (simp add: g1_def)
    have Elt: "E - 1 < length g1"
      using l1 lg Suc.prems(4) E1 by simp
    have cE: "c < length (g1 ! (E - 1))"
      using wellShaped_rows [OF ws1 Elt] Suc.prems(2) by simp
    have col1: "column g1 c = ?col[r := None]"
      unfolding g1_def using r cr by (rule column_set_cell)
    have col2: "column g2 c = ?col[r := None, E - 1 := Some temp]"
      unfolding g2_def using column_set_cell [OF Elt cE] col1 by simp
    have oth: "\<forall>c'. c' \<noteq> c \<longrightarrow> column g2 c' = column g c'"
      unfolding g2_def g1_def by (simp add: column_set_cell_other)
    have pre: "\<forall>i. r \<le> i \<and> i < E - 1 \<longrightarrow> column g2 c ! i = None"
    proof (intro allI impI)
      fix i assume i: "r \<le> i \<and> i < E - 1"
      show "column g2 c ! i = None"
      proof (cases "i = r")
        case True
        then show ?thesis
          using i col2 r lcol by simp
      next
        case False
        then have "Suc r \<le> i \<and> i < E" using i by arith
        then have "?col ! i = None" using Suc.prems(5) by blast
        then show ?thesis
          using i False col2 by simp
      qed
    qed
    have E4: "E - 1 \<le> GRID_ROWS cfg"
      using Suc.prems(4) by simp
    obtain g' where g': "fallRows c r (int (E - 1) - 1) g2 = Inr g'" "wellShaped cfg g'"
        "\<forall>c'. c' \<noteq> c \<longrightarrow> column g' c' = column g2 c'"
        "column g' c = replicate (E - 1 - length (blocksOf (take r (column g2 c)))) None
                          @ blocksOf (take r (column g2 c)) @ drop (E - 1) (column g2 c)"
      using Suc.IH [OF ws2 Suc.prems(2) rE E4 pre] by blast
    have Elt': "\<not> int (length (g[r := (g ! r)[c := None]])) \<le> int E - 1"
      using Elt l1 E1 by simp
    have cE': "\<not> length (g[r := (g ! r)[c := None]] ! (E - 1)) \<le> c"
      using cE by (simp add: g1_def)
    have "fallRows c (Suc r) (int E - 1) g
            = fallRows c r (int E - 1 - 1)
                ((g[r := (g ! r)[c := None]])
                   [E - 1 := (g[r := (g ! r)[c := None]] ! (E - 1))[c := Some temp]])"
      using r cr Some Elt' cE' e(1,2) by (simp only: fallRows.simps Let_def not_le [symmetric] option.case if_False simp_thms)
    then have step: "fallRows c (Suc r) (int E - 1) g = fallRows c r (int (E - 1) - 1) g2"
      using e(3) by (simp only: g1_def g2_def)
    have tk2: "take r (column g2 c) = take r ?col"
      using col2 rE by simp
    have dr2: "drop (E - 1) (column g2 c) = Some temp # drop E ?col"
    proof -
      have "E - 1 < length (?col[r := None])"
        using Elt l1 lcol by simp
      then have "drop (E - 1) (?col[r := None, E - 1 := Some temp])
                   = Some temp # drop (Suc (E - 1)) (?col[r := None, E - 1 := Some temp])"
        by (simp add: Cons_nth_drop_Suc [symmetric])
      also have "drop (Suc (E - 1)) (?col[r := None, E - 1 := Some temp]) = drop E ?col"
        using E1 rE by simp
      finally show ?thesis
        using col2 by simp
    qed
    have tk: "blocksOf (take (Suc r) ?col) = blocksOf (take r ?col) @ [Some temp]"
      using r lcol colr Some by (simp add: take_Suc_conv_app_nth blocksOf_def)
    have cnt: "length (blocksOf (take r ?col)) \<le> r"
      using r lcol by (simp add: blocksOf_def le_trans [OF length_filter_le])
    have k: "E - 1 - length (blocksOf (take r ?col))
               = E - length (blocksOf (take (Suc r) ?col))"
      using tk by simp
    show ?thesis
      using g' step tk2 dr2 tk k oth by simp
  qed
qed

lemma fallRows_settles:
  assumes "wellShaped cfg g" and "c < GRID_COLS cfg"
  shows "\<exists>g'. fallRows c (GRID_ROWS cfg) (int (GRID_ROWS cfg) - 1) g = Inr g' \<and> wellShaped cfg g' \<and>
           (\<forall>c'. c' \<noteq> c \<longrightarrow> column g' c' = column g c') \<and>
           column g' c = replicate (GRID_ROWS cfg - length (blocksOf (column g c))) None
                          @ blocksOf (column g c)"
proof -
  have len: "length (column g c) = GRID_ROWS cfg"
    using assms(1) by (simp add: column_def wellShaped_def)
  have pre: "\<forall>i. GRID_ROWS cfg \<le> i \<and> i < GRID_ROWS cfg \<longrightarrow> column g c ! i = None"
    by auto
  show ?thesis
    using fallRows_column [OF assms(1,2) le_refl le_refl pre] len by simp
qed

lemma gravity_columns:
  assumes "wellShaped cfg g"
  shows "\<exists>g'. gravity cfg c g = Inr g' \<and> wellShaped cfg g' \<and>
           (\<forall>c'. column g' c' =
              (if c \<le> c' \<and> c' < GRID_COLS cfg
               then replicate (GRID_ROWS cfg - length (blocksOf (column g c'))) None
                      @ blocksOf (column g c')
               else column g c'))"
  using assms
proof (induction cfg c g rule: gravity.induct)
  case (1 cfg c newGrid)
  show ?case
  proof (cases "c < GRID_COLS cfg")
    case False
    have "gravity cfg c newGrid = Inr newGrid"
      using False by (subst gravity.simps) simp
    then show ?thesis
      using False "1.prems" by auto
  next
    case True
    obtain g1 where g1: "fallRows c (GRID_ROWS cfg) (int (GRID_ROWS cfg) - 1) newGrid = Inr g1"
        "wellShaped cfg g1" "\<forall>c'. c' \<noteq> c \<longrightarrow> column g1 c' = column newGrid c'"
        "column g1 c = replicate (GRID_ROWS cfg - length (blocksOf (column newGrid c))) None
                          @ blocksOf (column newGrid c)"
      using fallRows_settles [OF "1.prems" True] by blast
    obtain g' where g': "gravity cfg (c + 1) g1 = Inr g'" "wellShaped cfg g'"
        "\<forall>c'. column g' c' =
              (if c + 1 \<le> c' \<and> c' < GRID_COLS cfg
               then replicate (GRID_ROWS cfg - length (blocksOf (column g1 c'))) None
                      @ blocksOf (column g1 c')
               else column g1 c')"
      using "1.IH" [OF True g1(1) g1(2)] by blast
    have step: "gravity cfg c newGrid = gravity cfg (c + 1) g1"
      using True g1(1) by (subst gravity.simps) simp
    have cols: "\<forall>c'. column g' c' =
              (if c \<le> c' \<and> c' < GRID_COLS cfg
               then replicate (GRID_ROWS cfg - length (blocksOf (column newGrid c'))) None
                      @ blocksOf (column newGrid c')
               else column newGrid c')"
    proof
      fix c'
      show "column g' c' =
              (if c \<le> c' \<and> c' < GRID_COLS cfg
               then replicate (GRID_ROWS cfg - length (blocksOf (column newGrid c'))) None
                      @ blocksOf (column newGrid c')
               else column newGrid c')"
      proof (cases "c' = c")
        case True
        then show ?thesis
          using g'(3) g1(4) \<open>c < GRID_COLS cfg\<close> by simp
      next
        case False
        then have "column g1 c' = column newGrid c'"
          using g1(3) by blast
        then show ?thesis
          using g'(3) False by auto
      qed
    qed
    show ?thesis
      using step g'(1,2) cols by simp
  qed
qed

lemma blocksOf_settled:
  "blocksOf (replicate k None @ blocksOf cells) = blocksOf cells"
  by (simp add: blocksOf_def)

text \<open>
  C4: on a grid of \<open>GRID_ROWS\<close> rows of \<open>GRID_COLS\<close> cells the gravity loops return a grid of
  the same shape in which every column holds the blocks of the same column of the input, in
  the same order from top to bottom, below as many empty cells as it takes to fill the
  column: each column is settled from its own cells alone, the sequence of its blocks (hence
  their order and their multiset) is kept, and the blocks are contiguous at the bottom with
  every empty cell above them.
\<close>
theorem compactGravity_columns:
  assumes "wellShaped cfg g"
  shows "\<exists>g'. compactGravity cfg g = Inr g' \<and> wellShaped cfg g' \<and>
           (\<forall>c. c < GRID_COLS cfg \<longrightarrow>
              blocksOf (column g' c) = blocksOf (column g c) \<and>
              column g' c = replicate (GRID_ROWS cfg - length (blocksOf (column g c))) None
                              @ blocksOf (column g c))"
proof -
  obtain g' where g': "gravity cfg 0 g = Inr g'" "wellShaped cfg g'"
      "\<forall>c'. column g' c' =
              (if 0 \<le> c' \<and> c' < GRID_COLS cfg
               then replicate (GRID_ROWS cfg - length (blocksOf (column g c'))) None
                      @ blocksOf (column g c')
               else column g c')"
    using gravity_columns [OF assms, of 0] by blast
  have "\<forall>c. c < GRID_COLS cfg \<longrightarrow>
              blocksOf (column g' c) = blocksOf (column g c) \<and>
              column g' c = replicate (GRID_ROWS cfg - length (blocksOf (column g c))) None
                              @ blocksOf (column g c)"
    using g'(3) by (simp add: blocksOf_settled)
  then show ?thesis
    using g'(1,2) by (simp add: compactGravity_def blocksOf_settled)
qed

theorem compactGravity_columns_witness:
  "wellShaped \<lparr>GRID_COLS = 2, GRID_ROWS = 3, INITIAL_ROWS = 1, TIME_LIMIT = 10, MIN_TARGET = 1, MAX_TARGET = 9\<rparr> [[Some \<lparr>id_b = ''a'', value_b = 2, isSelected = False\<rparr>, None], [None, Some \<lparr>id_b = ''b'', value_b = 3, isSelected = False\<rparr>], [Some \<lparr>id_b = ''c'', value_b = 4, isSelected = False\<rparr>, None]] \<and>
   compactGravity \<lparr>GRID_COLS = 2, GRID_ROWS = 3, INITIAL_ROWS = 1, TIME_LIMIT = 10, MIN_TARGET = 1, MAX_TARGET = 9\<rparr> [[Some \<lparr>id_b = ''a'', value_b = 2, isSelected = False\<rparr>, None], [None, Some \<lparr>id_b = ''b'', value_b = 3, isSelected = False\<rparr>], [Some \<lparr>id_b = ''c'', value_b = 4, isSelected = False\<rparr>, None]]
     = Inr [[None, None], [Some \<lparr>id_b = ''a'', value_b = 2, isSelected = False\<rparr>, None], [Some \<lparr>id_b = ''c'', value_b = 4, isSelected = False\<rparr>, Some \<lparr>id_b = ''b'', value_b = 3, isSelected = False\<rparr>]]"
proof -
  have w: "wellShaped \<lparr>GRID_COLS = 2, GRID_ROWS = 3, INITIAL_ROWS = 1, TIME_LIMIT = 10, MIN_TARGET = 1, MAX_TARGET = 9\<rparr> [[Some \<lparr>id_b = ''a'', value_b = 2, isSelected = False\<rparr>, None], [None, Some \<lparr>id_b = ''b'', value_b = 3, isSelected = False\<rparr>], [Some \<lparr>id_b = ''c'', value_b = 4, isSelected = False\<rparr>, None]]"
    by (simp add: wellShaped_def)
  have e: "compactGravity \<lparr>GRID_COLS = 2, GRID_ROWS = 3, INITIAL_ROWS = 1, TIME_LIMIT = 10, MIN_TARGET = 1, MAX_TARGET = 9\<rparr> [[Some \<lparr>id_b = ''a'', value_b = 2, isSelected = False\<rparr>, None], [None, Some \<lparr>id_b = ''b'', value_b = 3, isSelected = False\<rparr>], [Some \<lparr>id_b = ''c'', value_b = 4, isSelected = False\<rparr>, None]]
     = Inr [[None, None], [Some \<lparr>id_b = ''a'', value_b = 2, isSelected = False\<rparr>, None], [Some \<lparr>id_b = ''c'', value_b = 4, isSelected = False\<rparr>, Some \<lparr>id_b = ''b'', value_b = 3, isSelected = False\<rparr>]]"
    by code_simp
  show ?thesis
    using compactGravity_columns [OF w] e w by simp
qed

section \<open>Score\<close>

lemma handleBlockClick_score: "score (handleBlockClick s block) = score s"
  by (simp add: handleBlockClick_def split: prod.splits Outcome.splits)

lemma addNewRow_score: "addNewRow cfg rnd s = Inr s1 \<Longrightarrow> score s1 = score s"
  by (auto simp: addNewRow_def split: list.splits sum.splits if_splits)

lemma removeBlocks_score: "removeBlocks cfg ids s = Inr s1 \<Longrightarrow> score s1 = score s"
  by (auto simp: removeBlocks_def split: sum.splits)

lemma matchCallback_score:
  assumes "matchCallback cfg k rnd next m s = Inr s1"
  shows "score s1 = score s + 10 * int (length next)"
proof -
  obtain s' where r: "removeBlocks cfg next s = Inr s'"
    using assms by (auto simp: matchCallback_def split: sum.splits)
  have "score s' = score s"
    using r by (rule removeBlocks_score)
  then show ?thesis
    using assms r
    by (auto simp: matchCallback_def Let_def generateTarget_def split: if_splits
             dest: addNewRow_score)
qed

lemma timerTick_score: "timerTick cfg rnd s = Inr s1 \<Longrightarrow> score s1 = score s"
  by (auto simp: timerTick_def split: if_splits sum.splits dest: addNewRow_score)

lemma step_score:
  assumes "step cfg e s = Inr s1"
  shows "score s1 = score s + 10 * (\<Sum>p\<leftarrow>matchLog e s. int (fst p))"
proof (cases e)
  case (Click block)
  then show ?thesis
    using assms by (auto simp: step_def matchLog_def handleBlockClick_score)
next
  case (MatchTimeout k rnd)
  show ?thesis
  proof (cases "pendingMatches s")
    case Nil
    then show ?thesis
      using assms MatchTimeout by (auto simp: step_def matchLog_def)
  next
    case (Cons p rest)
    obtain sel m where p: "p = (sel, m)" by (cases p)
    have "matchCallback cfg k rnd sel m (s\<lparr>pendingMatches := rest\<rparr>) = Inr s1"
      using assms MatchTimeout Cons p by (simp add: step_def)
    then have "score s1 = score (s\<lparr>pendingMatches := rest\<rparr>) + 10 * int (length sel)"
      by (rule matchCallback_score)
    then show ?thesis
      using MatchTimeout Cons p by (simp add: matchLog_def)
  qed
next
  case (Tick rnd)
  then show ?thesis
    using assms by (auto simp: step_def matchLog_def dest: timerTick_score)
next
  case PauseClick
  then show ?thesis
    using assms by (auto simp: step_def matchLog_def pauseClick_def)
qed

lemma run_score:
  "run cfg es s = Inr (t, log) \<Longrightarrow> score t = score s + 10 * (\<Sum>p\<leftarrow>log. int (fst p))"
proof (induction es arbitrary: s log)
  case Nil
  then show ?case by simp
next
  case (Cons e es)
  obtain s1 where s1: "step cfg e s = Inr s1"
    using Cons.prems by (auto split: sum.splits)
  obtain log1 where l1: "run cfg es s1 = Inr (t, log1)" and lg: "log = matchLog e s @ log1"
    using Cons.prems s1 by (auto split: sum.splits)
  have "score t = score s1 + 10 * (\<Sum>p\<leftarrow>log1. int (fst p))"
    using l1 by (rule Cons.IH)
  then show ?case
    using step_score [OF s1] lg by simp
qed

lemma sum_ids_cleared:
  "list_all (\<lambda>p. fst p = snd p) log \<Longrightarrow>
     (\<Sum>p\<leftarrow>log. int (fst p)) = (\<Sum>p\<leftarrow>log. int (snd p))"
  by (induction log) simp_all

lemma sum_ids_nonneg: "0 \<le> (\<Sum>p\<leftarrow>log. int (fst p))"
  by (induction log) simp_all

lemma initGame_score: "initGame cfg rnd k m s0 = Inr s1 \<Longrightarrow> score s1 = 0"
  by (auto simp: initGame_def Let_def generateTarget_def split: if_splits)

lemma length_filter_disj:
  assumes "\<forall>x\<in>set xs. \<not> (P x \<and> Q x)"
  shows "length (filter (\<lambda>x. P x \<or> Q x) xs) = length (filter P xs) + length (filter Q xs)"
  using assms by (induction xs) auto

lemma clearedBy_Nil: "clearedBy [] g = 0"
  by (simp add: clearedBy_def clearCell_def split: option.splits)

lemma clearedBy_Cons:
  assumes "i \<notin> set ids"
  shows "clearedBy (i # ids) g = length (filter (carries i) (concat g)) + clearedBy ids g"
proof -
  have eq: "(\<lambda>cell. cell \<noteq> None \<and> clearCell (i # ids) cell = None)
          = (\<lambda>cell. carries i cell \<or> (cell \<noteq> None \<and> clearCell ids cell = None))"
    by (auto simp: fun_eq_iff clearCell_def carries_def split: option.splits if_splits)
  have dis: "\<forall>cell\<in>set (concat g). \<not> (carries i cell \<and> (cell \<noteq> None \<and> clearCell ids cell = None))"
    using assms by (auto simp: clearCell_def carries_def split: option.splits if_splits)
  show ?thesis
    unfolding clearedBy_def eq using length_filter_disj [OF dis] by simp
qed

lemma clearedBy_distinct:
  assumes "distinct ids"
    and "list_all (\<lambda>i. length (filter (carries i) (concat g)) = 1) ids"
  shows "clearedBy ids g = length ids"
  using assms by (induction ids) (simp_all add: clearedBy_Nil clearedBy_Cons)

text \<open>
  C8, as the claim states it, fails: the score grows by 10 for each id of the matched
  selection, whether or not the removal finds a block with that id. The removal runs in a
  callback scheduled by the click, so a block that matches the target alone can be clicked
  again before the first callback runs. In the session below (a grid of one column, the
  block x = 5, the target 5) both clicks are exact matches; the first callback clears x and
  the second clears nothing, yet each adds 10: the score is 20 with one block cleared.
\<close>
theorem double_click_scores_twice:
  "initGame \<lparr>GRID_COLS = 1, GRID_ROWS = 2, INITIAL_ROWS = 1, TIME_LIMIT = 10, MIN_TARGET = 1, MAX_TARGET = 9\<rparr> (\<lambda>k. (''x'', 5)) 4 Time
      \<lparr>mode = None, grid = [], targetSum = 0, score = 0, isGameOver = False,
       timeLeft = 10, selectedIds = [], isPaused = False, pendingMatches = []\<rparr>
    = Inr \<lparr>mode = Some Time, grid = [[None], [Some \<lparr>id_b = ''x'', value_b = 5, isSelected = False\<rparr>]], targetSum = 5, score = 0, isGameOver = False,
       timeLeft = 10, selectedIds = [], isPaused = False, pendingMatches = []\<rparr> \<and>
   run \<lparr>GRID_COLS = 1, GRID_ROWS = 2, INITIAL_ROWS = 1, TIME_LIMIT = 10, MIN_TARGET = 1, MAX_TARGET = 9\<rparr>
      [Click \<lparr>id_b = ''x'', value_b = 5, isSelected = False\<rparr>, Click \<lparr>id_b = ''x'', value_b = 5, isSelected = False\<rparr>, MatchTimeout 0 (\<lambda>k. (''x'', 5)), MatchTimeout 0 (\<lambda>k. (''x'', 5))]
      \<lparr>mode = Some Time, grid = [[None], [Some \<lparr>id_b = ''x'', value_b = 5, isSelected = False\<rparr>]], targetSum = 5, score = 0, isGameOver = False,
       timeLeft = 10, selectedIds = [], isPaused = False, pendingMatches = []\<rparr>
    = Inr (\<lparr>mode = Some Time, grid = [[None], [None]], targetSum = 1, score = 20, isGameOver = False,
       timeLeft = 10, selectedIds = [], isPaused = False, pendingMatches = []\<rparr>, [(1, 1), (1, 0)]) \<and>
   score \<lparr>mode = Some Time, grid = [[None], [None]], targetSum = 1, score = 20, isGameOver = False,
       timeLeft = 10, selectedIds = [], isPaused = False, pendingMatches = []\<rparr> \<noteq> 10 * (\<Sum>p\<leftarrow>[(1, 1), (1, 0)]. int (snd p))"
  by code_simp

text \<open>
  C8, amended: \<open>initGame\<close> sets the score to 0, and over any sequence of events of a
  session the score grows by 10 times the number of ids of each matched selection whose
  callback runs, and by nothing else; so after N such matches with n1..nN ids the score has
  grown by 10 times their sum, and it never decreases. Whenever each of those selections
  has as many ids as its removal clears blocks, this is 10 times the number of blocks
  cleared; that is the case when the ids of the selection are distinct and each is carried
  by exactly one block of the grid at the time of the removal.
\<close>
theorem score_counts_matched_ids:
  "(\<forall>s1. initGame cfg rnd k m s0 = Inr s1 \<longrightarrow> score s1 = 0) \<and>
   (\<forall>t log. run cfg es s = Inr (t, log) \<longrightarrow>
      score t = score s + 10 * (\<Sum>p\<leftarrow>log. int (fst p)) \<and> score s \<le> score t \<and>
      (list_all (\<lambda>p. fst p = snd p) log \<longrightarrow>
         score t = score s + 10 * (\<Sum>p\<leftarrow>log. int (snd p)))) \<and>
   (distinct ids \<and> list_all (\<lambda>i. length (filter (carries i) (concat g)) = 1) ids \<longrightarrow>
      clearedBy ids g = length ids)"
proof -
  have a: "\<forall>s1. initGame cfg rnd k m s0 = Inr s1 \<longrightarrow> score s1 = 0"
    using initGame_score by blast
  have b: "\<forall>t log. run cfg es s = Inr (t, log) \<longrightarrow>
      score t = score s + 10 * (\<Sum>p\<leftarrow>log. int (fst p)) \<and> score s \<le> score t \<and>
      (list_all (\<lambda>p. fst p = snd p) log \<longrightarrow>
         score t = score s + 10 * (\<Sum>p\<leftarrow>log. int (snd p)))"
  proof (intro allI impI)
    fix t log
    assume r: "run cfg es s = Inr (t, log)"
    have e: "score t = score s + 10 * (\<Sum>p\<leftarrow>log. int (fst p))"
      using r by (rule run_score)
    have m: "score s \<le> score t"
      using e sum_ids_nonneg [of log] by simp
    have c: "list_all (\<lambda>p. fst p = snd p) log \<longrightarrow>
         score t = score s + 10 * (\<Sum>p\<leftarrow>log. int (snd p))"
      using e sum_ids_cleared [of log] by simp
    show "score t = score s + 10 * (\<Sum>p\<leftarrow>log. int (fst p)) \<and> score s \<le> score t \<and>
      (list_all (\<lambda>p. fst p = snd p) log \<longrightarrow>
         score t = score s + 10 * (\<Sum>p\<leftarrow>log. int (snd p)))"
      using e m c by blast
  qed
  have c: "distinct ids \<and> list_all (\<lambda>i. length (filter (carries i) (concat g)) = 1) ids \<longrightarrow>
      clearedBy ids g = length ids"
    using clearedBy_distinct by blast
  show ?thesis
    using a b c by blast
qed

theorem score_counts_matched_ids_witness:
  "initGame \<lparr>GRID_COLS = 1, GRID_ROWS = 2, INITIAL_ROWS = 1, TIME_LIMIT = 10, MIN_TARGET = 1, MAX_TARGET = 9\<rparr> (\<lambda>k. (''x'', 5)) 4 Time
      \<lparr>mode = None, grid = [], targetSum = 0, score = 0, isGameOver = False,
       timeLeft = 10, selectedIds = [], isPaused = False, pendingMatches = []\<rparr>
    = Inr \<lparr>mode = Some Time, grid = [[None], [Some \<lparr>id_b = ''x'', value_b = 5, isSelected = False\<rparr>]], targetSum = 5, score = 0, isGameOver = False,
       timeLeft = 10, selectedIds = [], isPaused = False, pendingMatches = []\<rparr> \<and>
   run \<lparr>GRID_COLS = 1, GRID_ROWS = 2, INITIAL_ROWS = 1, TIME_LIMIT = 10, MIN_TARGET = 1, MAX_TARGET = 9\<rparr> [Click \<lparr>id_b = ''x'', value_b = 5, isSelected = False\<rparr>, MatchTimeout 0 (\<lambda>k. (''x'', 5))]
      \<lparr>mode = Some Time, grid = [[None], [Some \<lparr>id_b = ''x'', value_b = 5, isSelected = False\<rparr>]], targetSum = 5, score = 0, isGameOver = False,
       timeLeft = 10, selectedIds = [], isPaused = False, pendingMatches = []\<rparr>
    = Inr (\<lparr>mode = Some Time, grid = [[None], [None]], targetSum = 1, score = 10, isGameOver = False,
       timeLeft = 10, selectedIds = [], isPaused = False, pendingMatches = []\<rparr>, [(1, 1)]) \<and>
   score \<lparr>mode = Some Time, grid = [[None], [None]], targetSum = 1, score = 10, isGameOver = False,
       timeLeft = 10, selectedIds = [], isPaused = False, pendingMatches = []\<rparr> = score \<lparr>mode = Some Time, grid = [[None], [Some \<lparr>id_b = ''x'', value_b = 5, isSelected = False\<rparr>]], targetSum = 5, score = 0, isGameOver = False,
       timeLeft = 10, selectedIds = [], isPaused = False, pendingMatches = []\<rparr> + 10 * (\<Sum>p\<leftarrow>[(1, 1)]. int (snd p)) \<and>
   clearedBy [''x''] [[None], [Some \<lparr>id_b = ''x'', value_b = 5, isSelected = False\<rparr>]] = length [''x'']"
proof -
  have i: "initGame \<lparr>GRID_COLS = 1, GRID_ROWS = 2, INITIAL_ROWS = 1, TIME_LIMIT = 10, MIN_TARGET = 1, MAX_TARGET = 9\<rparr> (\<lambda>k. (''x'', 5)) 4 Time
      \<lparr>mode = None, grid = [], targetSum = 0, score = 0, isGameOver = False,
       timeLeft = 10, selectedIds = [], isPaused = False, pendingMatches = []\<rparr>
    = Inr \<lparr>mode = Some Time, grid = [[None], [Some \<lparr>id_b = ''x'', value_b = 5, isSelected = False\<rparr>]], targetSum = 5, score = 0, isGameOver = False,
       timeLeft = 10, selectedIds = [], isPaused = False, pendingMatches = []\<rparr>"
    by code_simp
  have r: "run \<lparr>GRID_COLS = 1, GRID_ROWS = 2, INITIAL_ROWS = 1, TIME_LIMIT = 10, MIN_TARGET = 1, MAX_TARGET = 9\<rparr> [Click \<lparr>id_b = ''x'', value_b = 5, isSelected = False\<rparr>, MatchTimeout 0 (\<lambda>k. (''x'', 5))]
      \<lparr>mode = Some Time, grid = [[None], [Some \<lparr>id_b = ''x'', value_b = 5, isSelected = False\<rparr>]], targetSum = 5, score = 0, isGameOver = False,
       timeLeft = 10, selectedIds = [], isPaused = False, pendingMatches = []\<rparr>
    = Inr (\<lparr>mode = Some Time, grid = [[None], [None]], targetSum = 1, score = 10, isGameOver = False,
       timeLeft = 10, selectedIds = [], isPaused = False, pendingMatches = []\<rparr>, [(1, 1)])"
    by code_simp
  have d: "distinct [''x''] \<and>
           list_all (\<lambda>i. length (filter (carries i) (concat [[None], [Some \<lparr>id_b = ''x'', value_b = 5, isSelected = False\<rparr>]])) = 1) [''x'']"
    by (simp add: carries_def)
  show ?thesis
    using score_counts_matched_ids [of "\<lparr>GRID_COLS = 1, GRID_ROWS = 2, INITIAL_ROWS = 1, TIME_LIMIT = 10, MIN_TARGET = 1, MAX_TARGET = 9\<rparr>"
        "(\<lambda>k. (''x'', 5))" 4 Time
        "\<lparr>mode = None, grid = [], targetSum = 0, score = 0, isGameOver = False,
       timeLeft = 10, selectedIds = [], isPaused = False, pendingMatches = []\<rparr>"
        "[Click \<lparr>id_b = ''x'', value_b = 5, isSelected = False\<rparr>, MatchTimeout 0 (\<lambda>k. (''x'', 5))]"
        "\<lparr>mode = Some Time, grid = [[None], [Some \<lparr>id_b = ''x'', value_b = 5, isSelected = False\<rparr>]], targetSum = 5, score = 0, isGameOver = False,
       timeLeft = 10, selectedIds = [], isPaused = False, pendingMatches = []\<rparr>"
        "[''x'']" "[[None], [Some \<lparr>id_b = ''x'', value_b = 5, isSelected = False\<rparr>]]"] i r d
    by simp
qed

end
